theory Spec2Isabelle
  imports Main "HOL-Library.Word"
begin

section \<open>Python values\<close>

text \<open>
  A Python \<open>str\<close> is a sequence of Unicode code points, so it is modelled as a list of
  natural numbers; \<open>len\<close> is \<open>length\<close>. A \<open>bytes\<close> object is a list of 8-bit words.
  String literals of the source are written \<open>ustr ''...''\<close>.
\<close>

type_synonym pystr = "nat list"

type_synonym pybytes = "8 word list"

definition ustr :: "string \<Rightarrow> pystr" where
  "ustr s = map of_char s"

definition bstr :: "string \<Rightarrow> pybytes" where
  "bstr s = map of_char s"

text \<open>\<open>s.startswith(p)\<close> and \<open>s.endswith(p)\<close>, for strings and for bytes.\<close>

definition startswith :: "'a list \<Rightarrow> 'a list \<Rightarrow> bool" where
  "startswith s p = (take (length p) s = p)"

definition endswith :: "'a list \<Rightarrow> 'a list \<Rightarrow> bool" where
  "endswith s p = (length p \<le> length s \<and> drop (length s - length p) s = p)"

text \<open>\<open>s.split(c)\<close> for a one-character separator: never the empty list.\<close>

fun py_split :: "'a \<Rightarrow> 'a list \<Rightarrow> 'a list list" where
  "py_split c [] = [[]]"
| "py_split c (x # xs) =
     (if x = c then [] # py_split c xs
      else (case py_split c xs of
              [] \<Rightarrow> [[x]]
            | p # ps \<Rightarrow> (x # p) # ps))"

text \<open>\<open>tag.split('}')[-1]\<close>: the local part of a (possibly namespace-qualified) tag.\<close>

definition rbrace :: nat where
  "rbrace = 125"

definition split_last :: "pystr \<Rightarrow> pystr" where
  "split_last t = last (py_split rbrace t)"

section \<open>The content tree\<close>

text \<open>
  An \<open>xml.etree.ElementTree.Element\<close>: its tag (a string, or something else for comment
  and processing-instruction nodes), the attribute dictionary in document order, the
  optional \<open>text\<close> and \<open>tail\<close>, and the ordered children.
\<close>

datatype tag = TagStr pystr | TagOther

datatype element = Element (tag: tag) (attrib: "(pystr \<times> pystr) list")
  (etext: "pystr option") (etail: "pystr option") (children: "element list")

text \<open>\<open>elem.get(name)\<close>.\<close>

definition get :: "element \<Rightarrow> pystr \<Rightarrow> pystr option" where
  "get el name = map_of (attrib el) name"

lemma enumerate_size [termination_simp]:
  "(i, c) \<in> set (enumerate n cs) \<Longrightarrow> size c < Suc (size_list size cs)"
  by (auto simp: in_set_enumerate_eq less_Suc_eq_le
      intro!: size_list_estimation'[where y="size (cs ! (i - n))"])

text \<open>
  \<open>parent.iter()\<close>: the element itself, then its descendants, in document (pre-)order.
  Python elements have identity; here an element of the traversal is identified by its
  position, the list of child indices leading to it from the element iterated over, so
  that \<open>[]\<close> is that element itself (\<open>el is parent\<close>).
\<close>

fun iter_pos :: "element \<Rightarrow> (nat list \<times> element) list" where
  "iter_pos (Element tg at tx ta cs) =
     ([], Element tg at tx ta cs) #
     concat (map (\<lambda>(i, c). map (\<lambda>(p, d). (i # p, d)) (iter_pos c)) (enumerate 0 cs))"

text \<open>The element reached from \<open>el\<close> by a position, if there is one.\<close>

fun node_at :: "element \<Rightarrow> nat list \<Rightarrow> element option" where
  "node_at el [] = Some el"
| "node_at el (i # p) =
     (if i < length (children el) then node_at (children el ! i) p else None)"

section \<open>Namespace-agnostic lookup\<close>

text \<open>The test of \<open>_findall_local\<close> on a string tag.\<close>

definition tag_matches :: "pystr \<Rightarrow> pystr \<Rightarrow> bool" where
  "tag_matches t local_name =
     (endswith t (rbrace # local_name) \<or> t = local_name \<or> split_last t = local_name)"

text \<open>
  \<open>_findall_local(parent, local_name)\<close>, with the positions of the elements it returns:
  an element of \<open>parent.iter()\<close> is appended when its tag is a string that matches, and
  it is not the parent or the parent's local part differs from \<open>local_name\<close>.
\<close>

definition findall_local_pos :: "element \<Rightarrow> pystr \<Rightarrow> (nat list \<times> element) list" where
  "findall_local_pos parent local_name =
     filter (\<lambda>(p, el).
        (case tag el of
           TagStr t \<Rightarrow> tag_matches t local_name \<and> (p \<noteq> [] \<or> split_last t \<noteq> local_name)
         | TagOther \<Rightarrow> False))
       (iter_pos parent)"

definition findall_local :: "element \<Rightarrow> pystr \<Rightarrow> element list" where
  "findall_local parent local_name = map snd (findall_local_pos parent local_name)"

text \<open>An element whose tag is a string with the given local part.\<close>

definition has_local_name :: "element \<Rightarrow> pystr \<Rightarrow> bool" where
  "has_local_name el n = (case tag el of TagStr t \<Rightarrow> split_last t = n | TagOther \<Rightarrow> False)"

definition ex_rows :: element where
  "ex_rows =
     Element (TagStr (ustr ''{one}Row'')) [] None None
       [Element (TagStr (ustr ''Row'')) [] None None [],
        Element (TagStr (ustr ''{one}Cell'')) [] None None
          [Element (TagStr (ustr ''{x}Row'')) [] None None []]]"

section \<open>Image format detection\<close>

text \<open>
  \<open>self.supported_image_extensions\<close>: a dictionary from signature to extension; Python
  iterates over it in insertion order.
\<close>

definition supported_image_extensions :: "(pybytes \<times> pystr) list" where
  "supported_image_extensions =
     [([0xFF, 0xD8, 0xFF], ustr ''.jpg''),
      ([0x89] @ bstr ''PNG'' @ [0x0D, 0x0A, 0x1A, 0x0A], ustr ''.png''),
      (bstr ''GIF87a'', ustr ''.gif''),
      (bstr ''GIF89a'', ustr ''.gif''),
      ([0x00, 0x00, 0x01, 0x00], ustr ''.ico''),
      (bstr ''BM'', ustr ''.bmp''),
      (bstr ''RIFF'', ustr ''.webp'')]"

text \<open>\<open>sub in s\<close> for sequences: \<open>sub\<close> occurs in \<open>s\<close> as a contiguous block.\<close>

fun contains :: "'a list \<Rightarrow> 'a list \<Rightarrow> bool" where
  "contains [] sub = (sub = [])"
| "contains (x # xs) sub = (startswith (x # xs) sub \<or> contains xs sub)"

text \<open>The loop of \<open>_detect_image_format\<close>: the extension of the first signature that matches.\<close>

fun first_signature :: "(pybytes \<times> pystr) list \<Rightarrow> pybytes \<Rightarrow> pystr option" where
  "first_signature [] data = None"
| "first_signature ((signature, ext) # rest) data =
     (if startswith data signature then Some ext else first_signature rest data)"

definition detect_image_format :: "pybytes \<Rightarrow> pystr" where
  "detect_image_format data =
     (case first_signature supported_image_extensions data of
        Some ext \<Rightarrow> ext
      | None \<Rightarrow>
          if startswith data (bstr ''RIFF'') \<and> contains (take 12 data) (bstr ''WEBP'')
          then ustr ''.webp''
          else ustr ''.png'')"

text \<open>A RIFF container that is not WebP: the first bytes of a WAVE file.\<close>

definition riff_wave :: pybytes where
  "riff_wave = bstr ''RIFF'' @ [0x24, 0x08, 0x00, 0x00] @ bstr ''WAVEfmt ''"

text \<open>The same header followed by 100 zero bytes, 116 bytes in all.\<close>

definition riff_wave_long :: pybytes where
  "riff_wave_long = riff_wave @ replicate 100 0"

text \<open>
  The known signatures in the words of the specification: JPEG, PNG, GIF87a, GIF89a,
  ICO, BMP, and RIFF together with the WEBP marker in the first 12 bytes.
\<close>

definition matches_known_signature :: "pybytes \<Rightarrow> bool" where
  "matches_known_signature data =
     (startswith data [0xFF, 0xD8, 0xFF]
      \<or> startswith data ([0x89] @ bstr ''PNG'' @ [0x0D, 0x0A, 0x1A, 0x0A])
      \<or> startswith data (bstr ''GIF87a'')
      \<or> startswith data (bstr ''GIF89a'')
      \<or> startswith data [0x00, 0x00, 0x01, 0x00]
      \<or> startswith data (bstr ''BM'')
      \<or> (startswith data (bstr ''RIFF'') \<and> contains (take 12 data) (bstr ''WEBP'')))"

section \<open>Library functions\<close>

text \<open>
  The functions of the Python standard library that the code calls and whose full
  behaviour is a matter of that library, not of this program, are parameters of the
  model: \<open>base64.b64decode\<close> (\<open>None\<close> when it raises), \<open>str.lower\<close>, the
  character-reference substitution of \<open>html.unescape\<close>, and \<open>int\<close> on a string
  (\<open>None\<close> when it raises \<open>ValueError\<close>). Every general theorem holds for every
  such library.
\<close>

record pylib =
  b64decode :: "pystr \<Rightarrow> pybytes option"
  lower :: "pystr \<Rightarrow> pystr"
  charref_sub :: "pystr \<Rightarrow> pystr"
  int_of :: "pystr \<Rightarrow> int option"

text \<open>\<open>str.isspace\<close> of one code point, which is also \<open>\s\<close> of \<open>re\<close> on strings.\<close>

definition isspace :: "nat \<Rightarrow> bool" where
  "isspace c =
     ((9 \<le> c \<and> c \<le> 13) \<or> (28 \<le> c \<and> c \<le> 32) \<or> c = 133 \<or> c = 160 \<or> c = 5760
      \<or> (8192 \<le> c \<and> c \<le> 8202) \<or> c = 8232 \<or> c = 8233 \<or> c = 8239 \<or> c = 8287
      \<or> c = 12288)"

text \<open>\<open>s.strip()\<close>.\<close>

definition strip :: "pystr \<Rightarrow> pystr" where
  "strip s = rev (dropWhile isspace (rev (dropWhile isspace s)))"

section \<open>Image extraction\<close>

definition image_attributes :: "pystr list" where
  "image_attributes =
     [ustr ''data'', ustr ''Data'', ustr ''binaryData'', ustr ''base64Data'',
      ustr ''imageData'', ustr ''src'', ustr ''source'', ustr ''content'',
      ustr ''bytes'', ustr ''binary'']"

text \<open>\<open>string.ascii_letters + string.digits + '+/='\<close>.\<close>

definition valid_chars :: pystr where
  "valid_chars =
     ustr ''abcdefghijklmnopqrstuvwxyzABCDEFGHIJKLMNOPQRSTUVWXYZ0123456789+/=''"

definition looks_like_base64 :: "pystr \<Rightarrow> bool" where
  "looks_like_base64 txt =
     (if length txt < 100 then False
      else list_all (\<lambda>c. c \<in> set valid_chars) (take 100 txt))"

text \<open>
  The body of the \<open>try\<close> block that the three stages share: decode, and accept the
  result only if it is longer than 100 bytes. A decoding error is caught and the loop
  goes on, as it does after a result that is too short.
\<close>

definition decoded_image :: "pylib \<Rightarrow> pystr \<Rightarrow> (pybytes \<times> pystr) option" where
  "decoded_image L v =
     (case b64decode L v of
        None \<Rightarrow> None
      | Some data \<Rightarrow>
          if length data > 100 then Some (data, detect_image_format data) else None)"

text \<open>Stage 1: the attributes of the element, in the order of \<open>image_attributes\<close>.\<close>

fun from_attributes :: "pylib \<Rightarrow> element \<Rightarrow> pystr list \<Rightarrow> (pybytes \<times> pystr) option" where
  "from_attributes L img [] = None"
| "from_attributes L img (attr # rest) =
     (case get img attr of
        None \<Rightarrow> from_attributes L img rest
      | Some v \<Rightarrow>
          if v = [] then from_attributes L img rest
          else (case decoded_image L v of
                  Some r \<Rightarrow> Some r
                | None \<Rightarrow> from_attributes L img rest))"

text \<open>Stage 2: the children with a text whose tag contains one of three keywords.\<close>

definition keyword_tag :: "pylib \<Rightarrow> tag \<Rightarrow> bool" where
  "keyword_tag L tg =
     (case tg of
        TagOther \<Rightarrow> False
      | TagStr t \<Rightarrow>
          list_ex (\<lambda>keyword. contains (lower L t) keyword)
            [ustr ''data'', ustr ''binary'', ustr ''content''])"

fun from_children :: "pylib \<Rightarrow> element list \<Rightarrow> (pybytes \<times> pystr) option" where
  "from_children L [] = None"
| "from_children L (child # rest) =
     (case etext child of
        None \<Rightarrow> from_children L rest
      | Some tx \<Rightarrow>
          if tx \<noteq> [] \<and> keyword_tag L (tag child)
          then (case decoded_image L tx of
                  Some r \<Rightarrow> Some r
                | None \<Rightarrow> from_children L rest)
          else from_children L rest)"

text \<open>
  Stage 3: every element of \<open>img_elem.iter()\<close> other than \<open>img_elem\<close> itself that has
  a text; the text is stripped and decoded only if it is longer than 100 characters
  and looks like base64.
\<close>

fun from_descendants :: "pylib \<Rightarrow> element list \<Rightarrow> (pybytes \<times> pystr) option" where
  "from_descendants L [] = None"
| "from_descendants L (descendant # rest) =
     (case etext descendant of
        None \<Rightarrow> from_descendants L rest
      | Some tx \<Rightarrow>
          if tx \<noteq> [] \<and> length (strip tx) > 100 \<and> looks_like_base64 (strip tx)
          then (case decoded_image L (strip tx) of
                  Some r \<Rightarrow> Some r
                | None \<Rightarrow> from_descendants L rest)
          else from_descendants L rest)"

definition proper_descendants :: "element \<Rightarrow> element list" where
  "proper_descendants el = map snd (filter (\<lambda>(p, d). p \<noteq> []) (iter_pos el))"

definition extract_image_data_enhanced :: "pylib \<Rightarrow> element \<Rightarrow> (pybytes \<times> pystr) option" where
  "extract_image_data_enhanced L img_elem =
     (case from_attributes L img_elem image_attributes of
        Some r \<Rightarrow> Some r
      | None \<Rightarrow>
          (case from_children L (children img_elem) of
             Some r \<Rightarrow> Some r
           | None \<Rightarrow> from_descendants L (proper_descendants img_elem)))"

text \<open>
  The candidate payloads of an image element: the strings that the three stages hand
  to the decoder, in the order in which they do.
\<close>

definition attribute_candidates :: "element \<Rightarrow> pystr list" where
  "attribute_candidates img =
     concat (map (\<lambda>attr. case get img attr of
                             None \<Rightarrow> []
                           | Some v \<Rightarrow> if v = [] then [] else [v])
                 image_attributes)"

definition child_candidates :: "pylib \<Rightarrow> element \<Rightarrow> pystr list" where
  "child_candidates L img =
     concat (map (\<lambda>child. case etext child of
                              None \<Rightarrow> []
                            | Some tx \<Rightarrow>
                                if tx \<noteq> [] \<and> keyword_tag L (tag child) then [tx] else [])
                 (children img))"

definition descendant_candidates :: "element list \<Rightarrow> pystr list" where
  "descendant_candidates ds =
     concat (map (\<lambda>d. case etext d of
                          None \<Rightarrow> []
                        | Some tx \<Rightarrow>
                            if tx \<noteq> [] \<and> length (strip tx) > 100 \<and> looks_like_base64 (strip tx)
                            then [strip tx] else [])
                 ds)"

definition candidates :: "pylib \<Rightarrow> element \<Rightarrow> pystr list" where
  "candidates L img =
     attribute_candidates img @ child_candidates L img
     @ descendant_candidates (proper_descendants img)"

section \<open>A library instance for running the model\<close>

text \<open>
  To run the model on concrete input, the library parameters are instantiated with
  functions that follow CPython on ASCII input: the lenient decoder of
  \<open>binascii.a2b_base64\<close> (characters outside the alphabet are skipped, a quad is
  closed by its padding, left-over characters are an error; a string with a
  non-ASCII character is rejected), lower-casing of the letters A to Z, the five
  predefined character references, and optionally signed decimal numerals.
\<close>

definition b64_value :: "nat \<Rightarrow> nat option" where
  "b64_value c =
     (if 65 \<le> c \<and> c \<le> 90 then Some (c - 65)
      else if 97 \<le> c \<and> c \<le> 122 then Some (c - 71)
      else if 48 \<le> c \<and> c \<le> 57 then Some (c + 4)
      else if c = 43 then Some 62
      else if c = 47 then Some 63
      else None)"

fun a2b_base64 :: "pystr \<Rightarrow> nat \<Rightarrow> nat \<Rightarrow> nat \<Rightarrow> pybytes \<Rightarrow> pybytes option" where
  "a2b_base64 [] quad_pos leftchar pads out = (if quad_pos \<noteq> 0 then None else Some out)"
| "a2b_base64 (c # cs) quad_pos leftchar pads out =
     (if c = 61 then
        (if quad_pos \<ge> 2 \<and> quad_pos + (pads + 1) \<ge> 4 then Some out
         else a2b_base64 cs quad_pos leftchar (if quad_pos \<ge> 2 then pads + 1 else pads) out)
      else
        (case b64_value c of
           None \<Rightarrow> a2b_base64 cs quad_pos leftchar pads out
         | Some v \<Rightarrow>
             if quad_pos = 0 then a2b_base64 cs 1 v 0 out
             else if quad_pos = 1 then
               a2b_base64 cs 2 (v mod 16) 0 (out @ [of_nat (leftchar * 4 + v div 16)])
             else if quad_pos = 2 then
               a2b_base64 cs 3 (v mod 4) 0 (out @ [of_nat (leftchar * 16 + v div 4)])
             else a2b_base64 cs 0 0 0 (out @ [of_nat (leftchar * 64 + v)])))"

definition b64decode_ascii :: "pystr \<Rightarrow> pybytes option" where
  "b64decode_ascii s = (if list_ex (\<lambda>c. c > 127) s then None else a2b_base64 s 0 0 0 [])"

definition lower_ascii :: "pystr \<Rightarrow> pystr" where
  "lower_ascii s = map (\<lambda>c. if 65 \<le> c \<and> c \<le> 90 then c + 32 else c) s"

fun charref_basic :: "pystr \<Rightarrow> pystr" where
  "charref_basic [] = []"
| "charref_basic (c # cs) =
     (if startswith (c # cs) (ustr ''&lt;'') then 60 # charref_basic (drop 3 cs)
      else if startswith (c # cs) (ustr ''&gt;'') then 62 # charref_basic (drop 3 cs)
      else if startswith (c # cs) (ustr ''&amp;'') then 38 # charref_basic (drop 4 cs)
      else if startswith (c # cs) (ustr ''&quot;'') then 34 # charref_basic (drop 5 cs)
      else if startswith (c # cs) (ustr ''&apos;'') then 39 # charref_basic (drop 5 cs)
      else c # charref_basic cs)"

definition digits_value :: "pystr \<Rightarrow> int option" where
  "digits_value ds =
     (if ds \<noteq> [] \<and> list_all (\<lambda>c. 48 \<le> c \<and> c \<le> 57) ds
      then Some (foldl (\<lambda>a c. 10 * a + int (c - 48)) 0 ds)
      else None)"

definition int_ascii :: "pystr \<Rightarrow> int option" where
  "int_ascii s =
     (case strip s of
        [] \<Rightarrow> None
      | c # cs \<Rightarrow>
          if c = 45 then map_option uminus (digits_value cs)
          else if c = 43 then digits_value cs
          else digits_value (c # cs))"

definition ascii_lib :: pylib where
  "ascii_lib =
     \<lparr>b64decode = b64decode_ascii, lower = lower_ascii,
      charref_sub = charref_basic, int_of = int_ascii\<rparr>"

text \<open>
  An image element whose payload is nested one level below a child that carries no
  keyword in its tag; the payload is base64 wrapped after 100 characters by a line
  feed, 148 letters \<open>A\<close> in all, which decode to 111 zero bytes.
\<close>

definition wrapped_payload :: pystr where
  "wrapped_payload = replicate 100 65 @ [10] @ replicate 48 65"

definition wrapped_blob :: element where
  "wrapped_blob = Element (TagStr (ustr ''{one}Blob'')) [] (Some wrapped_payload) None []"

definition wrapped_image :: element where
  "wrapped_image =
     Element (TagStr (ustr ''{one}Image'')) [] None None
       [Element (TagStr (ustr ''{one}Holder'')) [] None None [wrapped_blob]]"

text \<open>An image element whose only payload decodes to three bytes, the JPEG signature.\<close>

definition tiny_image :: element where
  "tiny_image =
     Element (TagStr (ustr ''{one}Image'')) [(ustr ''data'', ustr ''/9j/'')] None None []"

text \<open>The first candidate, in order, that decodes to an accepted image.\<close>

fun first_decoded :: "pylib \<Rightarrow> pystr list \<Rightarrow> (pybytes \<times> pystr) option" where
  "first_decoded L [] = None"
| "first_decoded L (c # cs) =
     (case decoded_image L c of Some r \<Rightarrow> Some r | None \<Rightarrow> first_decoded L cs)"

section \<open>Text cleaning\<close>

text \<open>
  \<open>html.unescape(s)\<close>: the library function returns \<open>s\<close> unchanged when it has no
  ampersand, and substitutes the character references otherwise.
\<close>

definition html_unescape :: "pylib \<Rightarrow> pystr \<Rightarrow> pystr" where
  "html_unescape L s = (if 38 \<in> set s then charref_sub L s else s)"

text \<open>
  \<open>re.sub(r'<[^>]+>', '', s)\<close>: a \<open><\<close> starts a match when the next \<open>>\<close> exists and
  is not the very next character; the match ends at that \<open>>\<close>.
\<close>

function strip_tags :: "pystr \<Rightarrow> pystr" where
  "strip_tags [] = []"
| "strip_tags (c # cs) =
     (if c = 60 \<and> takeWhile (\<lambda>x. x \<noteq> 62) cs \<noteq> [] \<and> dropWhile (\<lambda>x. x \<noteq> 62) cs \<noteq> []
      then strip_tags (tl (dropWhile (\<lambda>x. x \<noteq> 62) cs))
      else c # strip_tags cs)"
  by pat_completeness auto
termination
  by (relation "measure length")
     (auto simp: less_Suc_eq_le intro: le_trans[OF diff_le_self length_dropWhile_le])

text \<open>\<open>re.sub(r'[...]+', ' ', s)\<close>: every maximal run of characters of a class becomes one space.\<close>

function collapse_runs :: "(nat \<Rightarrow> bool) \<Rightarrow> pystr \<Rightarrow> pystr" where
  "collapse_runs P [] = []"
| "collapse_runs P (c # cs) =
     (if P c then 32 # collapse_runs P (dropWhile P cs) else c # collapse_runs P cs)"
  by pat_completeness auto
termination
  by (relation "measure (\<lambda>(P, s). length s)")
     (auto simp: less_Suc_eq_le length_dropWhile_le)

text \<open>\<open>s.replace(old, new)\<close> for single characters.\<close>

definition replace_char :: "nat \<Rightarrow> nat \<Rightarrow> pystr \<Rightarrow> pystr" where
  "replace_char old new s = map (\<lambda>c. if c = old then new else c) s"

text \<open>\<open>sep.join(parts)\<close>.\<close>

fun join :: "pystr \<Rightarrow> pystr list \<Rightarrow> pystr" where
  "join sep [] = []"
| "join sep [p] = p"
| "join sep (p # q # ps) = p @ sep @ join sep (q # ps)"

text \<open>
  \<open>_clean_text_content\<close>. The replacements of U+2022 and U+2014 put the same character
  back; the others turn the en dash into a hyphen and curly quotes into straight ones.
\<close>

definition clean_text_content :: "pylib \<Rightarrow> pystr \<Rightarrow> pystr" where
  "clean_text_content L txt =
     (if txt = [] then []
      else strip
        (collapse_runs (\<lambda>c. c = 9 \<or> c = 11 \<or> c = 12)
          (replace_char 8217 39 (replace_char 8216 39
            (replace_char 8221 34 (replace_char 8220 34
              (replace_char 8212 8212 (replace_char 8211 45 (replace_char 8226 8226
                (strip_tags (html_unescape L txt)))))))))))"

section \<open>Table extraction\<close>

text \<open>
  The two accumulators of \<open>_extract_cell_text_enhanced\<close>, \<open>text_parts\<close> and
  \<open>seen_texts\<close>, and the step that both of its loops share: a cleaned text is appended
  when it is not empty and was not seen before.
\<close>

type_synonym parts = "pystr list \<times> pystr set"

definition add_part :: "pystr \<Rightarrow> parts \<Rightarrow> parts" where
  "add_part clean_text st =
     (case st of (text_parts, seen_texts) \<Rightarrow>
        if clean_text \<noteq> [] \<and> clean_text \<notin> seen_texts
        then (text_parts @ [clean_text], insert clean_text seen_texts)
        else st)"

text \<open>Step 1: the texts of the \<open>T\<close> descendants.\<close>

fun collect_t_texts :: "pylib \<Rightarrow> element list \<Rightarrow> parts \<Rightarrow> parts" where
  "collect_t_texts L [] st = st"
| "collect_t_texts L (t_elem # rest) st =
     (case etext t_elem of
        None \<Rightarrow> collect_t_texts L rest st
      | Some tx \<Rightarrow>
          if tx \<noteq> [] then collect_t_texts L rest (add_part (clean_text_content L tx) st)
          else collect_t_texts L rest st)"

text \<open>Step 2: \<open>collect_text_recursive\<close>, the text of an element, then for each child its
  subtree and its tail.\<close>

definition add_raw :: "pylib \<Rightarrow> pystr option \<Rightarrow> parts \<Rightarrow> parts" where
  "add_raw L raw st =
     (case raw of
        None \<Rightarrow> st
      | Some tx \<Rightarrow> if tx \<noteq> [] \<and> strip tx \<noteq> [] then add_part (clean_text_content L tx) st else st)"

fun collect_text_recursive :: "pylib \<Rightarrow> element \<Rightarrow> parts \<Rightarrow> parts" where
  "collect_text_recursive L (Element tg at tx ta cs) st =
     fold (\<lambda>child s. add_raw L (etail child) (collect_text_recursive L child s)) cs
       (add_raw L tx st)"

definition extract_cell_text_enhanced :: "pylib \<Rightarrow> element \<Rightarrow> pystr" where
  "extract_cell_text_enhanced L cell_elem =
     (let st1 = collect_t_texts L (findall_local cell_elem (ustr ''T'')) ([], {});
          st2 = (if fst st1 = [] then collect_text_recursive L cell_elem st1 else st1)
      in strip (collapse_runs isspace (join (ustr '' '') (fst st2))))"

text \<open>
  \<open>span_type.upper()\<close> and \<open>span_type.capitalize()\<close>; the argument is one of the
  literals \<open>'colspan'\<close> and \<open>'rowspan'\<close>, so the ASCII letters are all that matter.
\<close>

definition upper_ascii :: "pystr \<Rightarrow> pystr" where
  "upper_ascii s = map (\<lambda>c. if 97 \<le> c \<and> c \<le> 122 then c - 32 else c) s"

definition capitalize_ascii :: "pystr \<Rightarrow> pystr" where
  "capitalize_ascii s = (case s of [] \<Rightarrow> [] | c # cs \<Rightarrow> upper_ascii [c] @ lower_ascii cs)"

text \<open>
  \<open>_get_cell_span\<close>: the first of the three spellings of the attribute that has a
  non-empty value decides; when \<open>int\<close> rejects that value the result is 1.
\<close>

fun span_of :: "pylib \<Rightarrow> element \<Rightarrow> pystr list \<Rightarrow> int" where
  "span_of L cell_elem [] = 1"
| "span_of L cell_elem (attr # rest) =
     (case get cell_elem attr of
        None \<Rightarrow> span_of L cell_elem rest
      | Some v \<Rightarrow>
          if v = [] then span_of L cell_elem rest
          else (case int_of L v of None \<Rightarrow> 1 | Some k \<Rightarrow> k))"

definition get_cell_span :: "pylib \<Rightarrow> element \<Rightarrow> pystr \<Rightarrow> int" where
  "get_cell_span L cell_elem span_type =
     span_of L cell_elem [span_type, upper_ascii span_type, capitalize_ascii span_type]"

text \<open>The inner loop of \<open>_extract_table_data_enhanced\<close>: the cells of one row.\<close>

fun row_cells :: "pylib \<Rightarrow> element list \<Rightarrow> pystr list \<Rightarrow> pystr list" where
  "row_cells L [] row_data = row_data"
| "row_cells L (cell_elem # rest) row_data =
     (let cell_text = extract_cell_text_enhanced L cell_elem;
          colspan = get_cell_span L cell_elem (ustr ''colspan'')
      in row_cells L rest (row_data @ [cell_text] @ replicate (nat (colspan - 1)) []))"

definition row_signature :: "pystr list \<Rightarrow> pystr" where
  "row_signature row_data =
     (if length row_data \<ge> 3 then join (ustr ''|'') (take 3 row_data)
      else join (ustr ''|'') row_data)"

text \<open>The outer loop, with its accumulators \<open>rows\<close> and \<open>seen_row_signatures\<close>.\<close>

fun table_rows ::
  "pylib \<Rightarrow> element list \<Rightarrow> pystr list list \<times> pystr set \<Rightarrow> pystr list list \<times> pystr set" where
  "table_rows L [] st = st"
| "table_rows L (row_elem # rest) (rows, seen_row_signatures) =
     (let row_data = row_cells L (findall_local row_elem (ustr ''Cell'')) [];
          sig = row_signature row_data
      in if row_data \<noteq> [] \<and> list_ex (\<lambda>cell. strip cell \<noteq> []) row_data
            \<and> sig \<notin> seen_row_signatures
         then table_rows L rest (rows @ [row_data], insert sig seen_row_signatures)
         else table_rows L rest (rows, seen_row_signatures))"

definition extract_table_data_enhanced :: "pylib \<Rightarrow> element \<Rightarrow> pystr list list" where
  "extract_table_data_enhanced L table_elem =
     fst (table_rows L (findall_local table_elem (ustr ''Row'')) ([], {}))"


text \<open>A table of three rows of two cells: A B, A B, C D.\<close>

definition text_cell :: "pystr \<Rightarrow> element" where
  "text_cell s =
     Element (TagStr (ustr ''{one}Cell'')) [] None None
       [Element (TagStr (ustr ''{one}OE'')) [] None None
          [Element (TagStr (ustr ''{one}T'')) [] (Some s) None []]]"

definition abcd_table :: element where
  "abcd_table =
     Element (TagStr (ustr ''{one}Table'')) [] None None
       [Element (TagStr (ustr ''{one}Row'')) [] None None
          [text_cell (ustr ''A''), text_cell (ustr ''B'')],
        Element (TagStr (ustr ''{one}Row'')) [] None None
          [text_cell (ustr ''A''), text_cell (ustr ''B'')],
        Element (TagStr (ustr ''{one}Row'')) [] None None
          [text_cell (ustr ''C''), text_cell (ustr ''D'')]]"








section \<open>The order-preserving walk\<close>

text \<open>The \<open>element_type\<close> handed to the content processor: \<open>'table'\<close>, \<open>'image'\<close>, \<open>'text'\<close>.\<close>

datatype element_type = TableType | ImageType | TextType

text \<open>
  \<open>_is_inside_element\<close>. Its loop looks at \<open>current\<close> and moves on with
  \<open>current.getparent() if hasattr(current, 'getparent') else None\<close>. The elements are
  those of \<open>xml.etree.ElementTree\<close>, which the module imports as \<open>ET\<close>; they have no
  \<open>getparent\<close> method (that is the interface of lxml), so the attribute test is false
  and the loop ends after the element itself. The chain argument is the element
  followed by its ancestors, nearest first.
\<close>

definition has_getparent :: bool where
  "has_getparent = False"

definition tag_is_target :: "element \<Rightarrow> pystr list \<Rightarrow> bool" where
  "tag_is_target current target_elements =
     (case tag current of
        TagOther \<Rightarrow> False
      | TagStr tag_name \<Rightarrow>
          list_ex (\<lambda>target. endswith tag_name (rbrace # target) \<or> tag_name = target)
            target_elements)"

fun inside_loop :: "bool \<Rightarrow> element list \<Rightarrow> pystr list \<Rightarrow> bool" where
  "inside_loop getparent [] target_elements = False"
| "inside_loop getparent (current # parents) target_elements =
     (if tag_is_target current target_elements then True
      else inside_loop getparent (if getparent then parents else []) target_elements)"

definition is_inside_element :: "element list \<Rightarrow> pystr list \<Rightarrow> bool" where
  "is_inside_element chain target_elements = inside_loop has_getparent chain target_elements"

text \<open>
  \<open>process_element\<close>, with the calls of \<open>processor_func\<close> as the list of what it is
  called with, in order: the element type, the position of the element below the
  root, and the element. The first argument is the chain of ancestors.
\<close>

fun process_element ::
  "element list \<Rightarrow> nat list \<Rightarrow> element \<Rightarrow> (element_type \<times> nat list \<times> element) list" where
  "process_element ancestors pos (Element tg at tx ta cs) =
     (case tg of
        TagOther \<Rightarrow> []
      | TagStr tag_name \<Rightarrow>
          (let elem = Element tg at tx ta cs;
               local_name = (if rbrace \<in> set tag_name then split_last tag_name else tag_name)
           in (if local_name = ustr ''Table'' then [(TableType, pos, elem)]
               else if local_name = ustr ''Image'' then [(ImageType, pos, elem)]
               else if local_name \<in> {ustr ''OE'', ustr ''T''}
                       \<and> \<not> is_inside_element (elem # ancestors) [ustr ''Table'']
                    then [(TextType, pos, elem)]
                    else [])
              @ concat (map (\<lambda>(i, child). process_element (elem # ancestors) (pos @ [i]) child)
                          (enumerate 0 cs))))"

definition process_content_in_original_order ::
  "element \<Rightarrow> (element_type \<times> nat list \<times> element) list" where
  "process_content_in_original_order root =
     concat (map (\<lambda>(i, child). process_element [root] [i] child)
               (enumerate 0 (children root)))"

text \<open>A page with one table of one cell, whose text is in an \<open>OE\<close> with a \<open>T\<close>.\<close>

definition cell_t :: element where
  "cell_t = Element (TagStr (ustr ''{one}T'')) [] (Some (ustr ''x'')) None []"

definition cell_oe :: element where
  "cell_oe = Element (TagStr (ustr ''{one}OE'')) [] None None [cell_t]"

definition one_cell_table :: element where
  "one_cell_table =
     Element (TagStr (ustr ''{one}Table'')) [] None None
       [Element (TagStr (ustr ''{one}Row'')) [] None None
          [Element (TagStr (ustr ''{one}Cell'')) [] None None [cell_oe]]]"

definition table_page :: element where
  "table_page = Element (TagStr (ustr ''{one}Page'')) [] None None [one_cell_table]"

section \<open>Page conversion\<close>

text \<open>
  The files on disk, by path. What the code does through \<open>ElementTree\<close>,
  \<open>python-docx\<close> and \<open>reportlab\<close> is a parameter: the parser (\<open>None\<close> when it
  raises), the creation of the document with its title (\<open>None\<close> when that raises),
  the three processors of each format, which catch their own exceptions and may write
  temporary image files, and the final \<open>doc.save(out_path)\<close> or \<open>doc.build(story)\<close>,
  which gives the files afterwards and whether it returned normally.
\<close>

type_synonym files = "pystr \<Rightarrow> pybytes option"

record ('w, 'p) backend =
  fromstring :: "pystr \<Rightarrow> element option"
  word_new :: "pystr \<Rightarrow> 'w option"
  word_table :: "element \<Rightarrow> 'w \<times> files \<Rightarrow> 'w \<times> files"
  word_image :: "element \<Rightarrow> 'w \<times> files \<Rightarrow> 'w \<times> files"
  word_text :: "element \<Rightarrow> 'w \<times> files \<Rightarrow> 'w \<times> files"
  word_save :: "'w \<Rightarrow> pystr \<Rightarrow> files \<Rightarrow> files \<times> bool"
  pdf_new :: "pystr \<Rightarrow> pystr \<Rightarrow> 'p option"
  pdf_table :: "element \<Rightarrow> 'p \<times> files \<Rightarrow> 'p \<times> files"
  pdf_image :: "element \<Rightarrow> 'p \<times> files \<Rightarrow> 'p \<times> files"
  pdf_text :: "element \<Rightarrow> 'p \<times> files \<Rightarrow> 'p \<times> files"
  pdf_build :: "'p \<Rightarrow> files \<Rightarrow> files \<times> bool"

definition word_content_processor ::
  "('w, 'p) backend \<Rightarrow> bool \<Rightarrow> element_type \<times> nat list \<times> element \<Rightarrow> 'w \<times> files \<Rightarrow> 'w \<times> files" where
  "word_content_processor B include_images call st =
     (case call of (element_type, pos, element) \<Rightarrow>
        if element_type = TableType then word_table B element st
        else if element_type = ImageType \<and> include_images then word_image B element st
        else if element_type = TextType then word_text B element st
        else st)"

definition pdf_content_processor ::
  "('w, 'p) backend \<Rightarrow> bool \<Rightarrow> element_type \<times> nat list \<times> element \<Rightarrow> 'p \<times> files \<Rightarrow> 'p \<times> files" where
  "pdf_content_processor B include_images call st =
     (case call of (element_type, pos, element) \<Rightarrow>
        if element_type = TableType then pdf_table B element st
        else if element_type = ImageType \<and> include_images then pdf_image B element st
        else if element_type = TextType then pdf_text B element st
        else st)"

text \<open>
  \<open>parse_page_to_docx\<close> and \<open>parse_page_to_pdf\<close>: the success flag and the files
  afterwards. Every exception inside the \<open>try\<close> ends in \<open>return False\<close>.
\<close>

definition parse_page_to_docx ::
  "('w, 'p) backend \<Rightarrow> pystr \<Rightarrow> pystr \<Rightarrow> pystr \<Rightarrow> bool \<Rightarrow> files \<Rightarrow> bool \<times> files" where
  "parse_page_to_docx B xml page_name out_path include_images fs =
     (case fromstring B xml of
        None \<Rightarrow> (False, fs)
      | Some root \<Rightarrow>
          (case word_new B page_name of
             None \<Rightarrow> (False, fs)
           | Some doc0 \<Rightarrow>
               (let (doc, fs1) = fold (word_content_processor B include_images)
                                   (process_content_in_original_order root) (doc0, fs);
                    (fs2, ok) = word_save B doc out_path fs1
                in (ok, fs2))))"

definition parse_page_to_pdf ::
  "('w, 'p) backend \<Rightarrow> pystr \<Rightarrow> pystr \<Rightarrow> pystr \<Rightarrow> bool \<Rightarrow> files \<Rightarrow> bool \<times> files" where
  "parse_page_to_pdf B xml page_name out_path include_images fs =
     (case fromstring B xml of
        None \<Rightarrow> (False, fs)
      | Some root \<Rightarrow>
          (case pdf_new B out_path page_name of
             None \<Rightarrow> (False, fs)
           | Some story0 \<Rightarrow>
               (let (story, fs1) = fold (pdf_content_processor B include_images)
                                     (process_content_in_original_order root) (story0, fs);
                    (fs2, ok) = pdf_build B story fs1
                in (ok, fs2))))"

text \<open>
  A backend for running the model: its parser rejects the empty document, as
  \<open>ElementTree\<close> does, and reads any other text as an empty page; a document is the
  list of the elements rendered, and saving writes an empty file at the path.
\<close>

definition log_backend :: "(element list, pystr \<times> element list) backend" where
  "log_backend =
     \<lparr>fromstring = (\<lambda>s. if s = [] then None
                          else Some (Element (TagStr (ustr ''Page'')) [] None None [])),
      word_new = (\<lambda>title. Some []),
      word_table = (\<lambda>e (d, fs). (d @ [e], fs)),
      word_image = (\<lambda>e (d, fs). (d @ [e], fs)),
      word_text = (\<lambda>e (d, fs). (d @ [e], fs)),
      word_save = (\<lambda>d path fs. (fs(path \<mapsto> []), True)),
      pdf_new = (\<lambda>path title. Some (path, [])),
      pdf_table = (\<lambda>e ((path, d), fs). ((path, d @ [e]), fs)),
      pdf_image = (\<lambda>e ((path, d), fs). ((path, d @ [e]), fs)),
      pdf_text = (\<lambda>e ((path, d), fs). ((path, d @ [e]), fs)),
      pdf_build = (\<lambda>(path, d) fs. (fs(path \<mapsto> []), True))\<rparr>"

section \<open>PDF tables of \<open>app.py\<close>\<close>

text \<open>
  \<open>app.py\<close> has its own parser class; its \<open>_findall_local\<close> is the same function
  as above. \<open>_extract_clean_cell_text\<close> joins the distinct, unescaped, stripped and
  tag-free texts of the \<open>T\<close> descendants of a cell.
\<close>

fun clean_t_texts :: "pylib \<Rightarrow> element list \<Rightarrow> parts \<Rightarrow> parts" where
  "clean_t_texts L [] st = st"
| "clean_t_texts L (t_elem # rest) st =
     (case etext t_elem of
        None \<Rightarrow> clean_t_texts L rest st
      | Some tx \<Rightarrow>
          if tx \<noteq> []
          then clean_t_texts L rest (add_part (strip_tags (strip (html_unescape L tx))) st)
          else clean_t_texts L rest st)"

definition extract_clean_cell_text :: "pylib \<Rightarrow> element \<Rightarrow> pystr" where
  "extract_clean_cell_text L cell_elem =
     strip (collapse_runs isspace
       (join (ustr '' '')
          (fst (clean_t_texts L (findall_local cell_elem (ustr ''T'')) ([], {})))))"

text \<open>\<open>_parse_table_rows_clean\<close>: the rows that have a cell and a non-blank cell.\<close>

fun parse_rows :: "pylib \<Rightarrow> element list \<Rightarrow> pystr list list" where
  "parse_rows L [] = []"
| "parse_rows L (row_elem # rest) =
     (let row_data = map (extract_clean_cell_text L) (findall_local row_elem (ustr ''Cell''))
      in if row_data \<noteq> [] \<and> list_ex (\<lambda>cell. strip cell \<noteq> []) row_data
         then row_data # parse_rows L rest
         else parse_rows L rest)"

definition parse_table_rows_clean :: "pylib \<Rightarrow> element \<Rightarrow> pystr list list" where
  "parse_table_rows_clean L table_elem = parse_rows L (findall_local table_elem (ustr ''Row''))"

text \<open>\<open>s.replace(old, new)\<close> for a non-empty \<open>old\<close>: left to right, without overlap.\<close>

fun py_replace :: "pystr \<Rightarrow> pystr \<Rightarrow> pystr \<Rightarrow> pystr" where
  "py_replace old new [] = []"
| "py_replace old new (c # cs) =
     (if old \<noteq> [] \<and> startswith (c # cs) old
      then new @ py_replace old new (drop (length old - 1) cs)
      else c # py_replace old new cs)"

text \<open>\<open>s.rfind(c, 0, hi)\<close>: the last index below \<open>hi\<close> that holds \<open>c\<close>, or \<open>-1\<close>.\<close>

definition rfind :: "nat \<Rightarrow> pystr \<Rightarrow> nat \<Rightarrow> int" where
  "rfind c s hi =
     (case filter (\<lambda>i. s ! i = c) (rev [0..<min hi (length s)]) of
        [] \<Rightarrow> - 1
      | i # _ \<Rightarrow> int i)"

definition linebreak :: pystr where
  "linebreak = ustr ''<<<LINEBREAK>>>''"

text \<open>
  \<open>_clean_cell_text_for_pdf\<close>. \<open>MAX_CELL_LENGTH\<close> is 300, and
  \<open>MAX_CELL_LENGTH * 0.7\<close> is the float 210.0.
\<close>

definition clean_cell_text_for_pdf :: "pylib \<Rightarrow> pystr \<Rightarrow> pystr" where
  "clean_cell_text_for_pdf L txt =
     (if txt = [] then ustr '' ''
      else
        (let t1 = strip_tags (html_unescape L txt);
             t2 = py_replace [10] linebreak
                    (py_replace [13] linebreak (py_replace [13, 10] linebreak t1));
             t3 = collapse_runs isspace t2;
             t4 = py_replace linebreak (ustr '' '') t3;
             t5 = strip (collapse_runs isspace t4);
             t6 = replace_char 8217 39 (replace_char 8216 39
                    (replace_char 8221 34 (replace_char 8220 34
                      (replace_char 8212 8212 (replace_char 8211 45
                        (replace_char 8226 8226 t5))))));
             t7 = (if length t6 > 300
                   then (let truncate_pos = rfind 32 t6 297
                         in if truncate_pos > 210
                            then take (nat truncate_pos) t6 @ ustr ''...''
                            else take 297 t6 @ ustr ''...'')
                   else t6)
         in if t7 = [] then ustr '' '' else t7))"

text \<open>
  The body of the loop of \<open>_tables_pdf_enhanced\<close> for one table, up to the data of
  the segments that are then laid out. First the rows without repetitions, by the
  \<open>|\<close>-join of the whole row.
\<close>

fun unique_rows :: "pystr list list \<Rightarrow> pystr set \<Rightarrow> pystr list list" where
  "unique_rows [] seen_rows = []"
| "unique_rows (row # rest) seen_rows =
     (let row_key = join (ustr ''|'') row
      in if row_key \<notin> seen_rows then row # unique_rows rest (insert row_key seen_rows)
         else unique_rows rest seen_rows)"

text \<open>The cleaning loop, which also computes \<open>max_cols\<close>, starting from 0.\<close>

fun clean_rows ::
  "pylib \<Rightarrow> pystr list list \<Rightarrow> pystr list list \<times> nat \<Rightarrow> pystr list list \<times> nat" where
  "clean_rows L [] st = st"
| "clean_rows L (row # rest) (cleaned_rows, max_cols) =
     (let cleaned_row = map (clean_cell_text_for_pdf L) row
      in clean_rows L rest (cleaned_rows @ [cleaned_row], max max_cols (length cleaned_row)))"

definition pad_rows :: "pystr list list \<Rightarrow> nat \<Rightarrow> pystr list list" where
  "pad_rows cleaned_rows max_cols =
     map (\<lambda>row. row @ replicate (max_cols - length row) []) cleaned_rows"

text \<open>The cleaned and padded grid of a table, with its number of columns.\<close>

definition pdf_grid :: "pylib \<Rightarrow> element \<Rightarrow> pystr list list \<times> nat" where
  "pdf_grid L table_elem =
     (case clean_rows L (unique_rows (parse_table_rows_clean L table_elem) {}) ([], 0) of
        (cleaned_rows, max_cols) \<Rightarrow> (pad_rows cleaned_rows max_cols, max_cols))"

definition max_cols_per_segment :: "nat \<Rightarrow> nat" where
  "max_cols_per_segment max_cols =
     (if max_cols \<le> 8 then max_cols
      else if max_cols \<le> 12 then 8
      else 6)"

text \<open>\<open>range(start, stop, step)\<close> with a step that is not negative; a zero step raises.\<close>

datatype error = ValueError

definition py_range :: "nat \<Rightarrow> nat \<Rightarrow> nat \<Rightarrow> error + nat list" where
  "py_range start stop step =
     (if step = 0 then Inl ValueError
      else Inr (map (\<lambda>i. start + i * step) [0..<(stop - start + step - 1) div step]))"

text \<open>\<open>row[start_col:end_col]\<close>.\<close>

definition slice :: "nat \<Rightarrow> nat \<Rightarrow> 'a list \<Rightarrow> 'a list" where
  "slice start_col end_col row = take (end_col - start_col) (drop start_col row)"

text \<open>
  The segments of one table: for each, its first column, the column after its last,
  and its rows. A table without rows gives none. An exception leaves the function
  through its outer handler.
\<close>

definition table_segments ::
  "pylib \<Rightarrow> element \<Rightarrow> error + (nat \<times> nat \<times> pystr list list) list" where
  "table_segments L table_elem =
     (if parse_table_rows_clean L table_elem = [] then Inr []
      else if unique_rows (parse_table_rows_clean L table_elem) {} = [] then Inr []
      else
        (case pdf_grid L table_elem of (padded_rows, max_cols) \<Rightarrow>
           (let per_segment = max_cols_per_segment max_cols;
                cleaned_rows = (if length padded_rows > 120 then take 120 padded_rows
                                else padded_rows)
            in case py_range 0 max_cols per_segment of
                 Inl e \<Rightarrow> Inl e
               | Inr col_segments \<Rightarrow>
                   Inr (filter (\<lambda>(start_col, end_col, segment_data). segment_data \<noteq> [])
                         (map (\<lambda>start_col.
                            (let end_col = min (start_col + per_segment) max_cols
                             in (start_col, end_col, map (slice start_col end_col) cleaned_rows)))
                          col_segments)))))"

text \<open>
  The banding rule in the words of the specification: one segment up to 8 columns,
  segments of 8 columns up to 12, segments of 6 columns beyond, the last segment
  being what remains.
\<close>

definition banding_rule :: "nat \<Rightarrow> (nat \<times> nat) list" where
  "banding_rule m =
     (if m \<le> 8 then [(0, m)]
      else if m \<le> 12 then [(0, 8), (8, m)]
      else map (\<lambda>i. (6 * i, min (6 * i + 6) m)) [0..<(m + 5) div 6])"

text \<open>A table of one row with fifteen cells, A to O.\<close>

definition fifteen_columns :: element where
  "fifteen_columns =
     Element (TagStr (ustr ''{one}Table'')) [] None None
       [Element (TagStr (ustr ''{one}Row'')) [] None None
          (map (\<lambda>c. text_cell [c]) (ustr ''ABCDEFGHIJKLMNO''))]"

section \<open>Properties of the lookup\<close>

lemma py_split_not_Nil: "py_split c s \<noteq> []"
  by (induction s) (auto split: list.splits)

lemma last_py_split_no_sep: "c \<notin> set (last (py_split c s))"
proof (induction s)
  case Nil
  then show ?case by simp
next
  case (Cons x xs)
  then show ?case
    using py_split_not_Nil[of c xs] by (cases "py_split c xs") auto
qed

lemma py_split_no_sep: "c \<notin> set s \<Longrightarrow> py_split c s = [s]"
  by (induction s) auto

lemma last_py_split_id: "c \<notin> set s \<Longrightarrow> last (py_split c s) = s"
  by (simp add: py_split_no_sep)

lemma py_split_append: "py_split c (xs @ c # ys) = py_split c xs @ py_split c ys"
proof (induction xs)
  case Nil
  then show ?case by simp
next
  case (Cons x xs)
  then show ?case
    using py_split_not_Nil[of c xs] by (cases "py_split c xs") auto
qed

lemma last_py_split_append:
  "c \<notin> set n \<Longrightarrow> last (py_split c (xs @ c # n)) = n"
  by (simp add: py_split_append py_split_no_sep)

lemma split_last_fixed_iff: "split_last n = n \<longleftrightarrow> rbrace \<notin> set n"
  unfolding split_last_def
  using last_py_split_no_sep[of rbrace n] last_py_split_id[of rbrace n] by auto

lemma endswith_split_last:
  assumes "rbrace \<notin> set n" and "endswith t (rbrace # n)"
  shows "split_last t = n"
proof -
  from assms(2) have "t = take (length t - length (rbrace # n)) t @ rbrace # n"
    unfolding endswith_def by (metis append_take_drop_id)
  then obtain xs where "t = xs @ rbrace # n" ..
  with assms(1) show ?thesis
    unfolding split_last_def by (simp add: last_py_split_append)
qed

lemma tag_matches_local:
  assumes "split_last n = n"
  shows "tag_matches t n \<longleftrightarrow> split_last t = n"
proof -
  from assms have nb: "rbrace \<notin> set n" by (simp add: split_last_fixed_iff)
  show ?thesis
    unfolding tag_matches_def
    using endswith_split_last[OF nb] assms by auto
qed

lemma iter_pos_node_at: "(p, d) \<in> set (iter_pos el) \<Longrightarrow> node_at el p = Some d"
proof (induction el arbitrary: p d rule: iter_pos.induct)
  case (1 tg at tx ta cs)
  show ?case
  proof (cases p)
    case Nil
    with "1.prems" show ?thesis by auto
  next
    case (Cons i q)
    with "1.prems" obtain c where ic: "(i, c) \<in> set (enumerate 0 cs)"
      and qd: "(q, d) \<in> set (iter_pos c)"
      by auto
    from ic have "i < length cs" and "c = cs ! i"
      by (auto simp: in_set_enumerate_eq)
    moreover from "1.IH"[OF ic _ qd] have "node_at c q = Some d" by simp
    ultimately show ?thesis using Cons by simp
  qed
qed

text \<open>
  C10. For a local name \<open>n\<close> (a name that is its own local part, that is, one
  without the namespace separator, as every name that the code looks up is), the
  lookup returns exactly the elements of the pre-order traversal of \<open>p\<close> that are not
  \<open>p\<close> itself and whose local tag name is \<open>n\<close>, in traversal order; each is reached
  from \<open>p\<close> by a non-empty path of child indices, and \<open>p\<close> itself is never in the
  result.
\<close>

theorem findall_local_proper_descendants:
  assumes "split_last n = n"
  shows "findall_local_pos p n =
           filter (\<lambda>(path, el). path \<noteq> [] \<and> has_local_name el n) (iter_pos p)
         \<and> (\<forall>(path, el) \<in> set (findall_local_pos p n).
               path \<noteq> [] \<and> node_at p path = Some el \<and> has_local_name el n)"
proof -
  have eq: "findall_local_pos p n =
      filter (\<lambda>(path, el). path \<noteq> [] \<and> has_local_name el n) (iter_pos p)"
    unfolding findall_local_pos_def has_local_name_def
    by (rule filter_cong) (auto simp: tag_matches_local[OF assms] split: tag.splits)
  have "\<forall>(path, el) \<in> set (findall_local_pos p n).
          path \<noteq> [] \<and> node_at p path = Some el \<and> has_local_name el n"
    unfolding eq by (auto dest: iter_pos_node_at)
  with eq show ?thesis by blast
qed

theorem findall_local_proper_descendants_witness:
  "split_last (ustr ''Row'') = ustr ''Row''
   \<and> findall_local_pos ex_rows (ustr ''Row'') =
       [([0], Element (TagStr (ustr ''Row'')) [] None None []),
        ([1, 0], Element (TagStr (ustr ''{x}Row'')) [] None None [])]"
  using findall_local_proper_descendants[of "ustr ''Row''" ex_rows]
  by (simp add: ex_rows_def ustr_def split_last_def rbrace_def has_local_name_def enumerate_eq_zip)

section \<open>Properties of format detection\<close>

lemma first_signature_None:
  "(\<forall>(signature, ext) \<in> set sigs. \<not> startswith data signature)
   \<Longrightarrow> first_signature sigs data = None"
  by (induction sigs) auto

lemma detect_image_format_jpg:
  "startswith data [0xFF, 0xD8, 0xFF] \<Longrightarrow> detect_image_format data = ustr ''.jpg''"
  by (simp add: detect_image_format_def supported_image_extensions_def)

lemma detect_image_format_default:
  assumes "\<not> matches_known_signature data" and "\<not> startswith data (bstr ''RIFF'')"
  shows "detect_image_format data = ustr ''.png''"
proof -
  from assms have "\<forall>(signature, ext) \<in> set supported_image_extensions.
      \<not> startswith data signature"
    by (simp add: matches_known_signature_def supported_image_extensions_def)
  then have "first_signature supported_image_extensions data = None"
    by (rule first_signature_None)
  with assms(2) show ?thesis by (simp add: detect_image_format_def)
qed

text \<open>
  C6. Bytes that begin with \<open>FF D8 FF\<close> are detected as \<open>.jpg\<close>, and bytes that match
  no known signature and do not begin with \<open>RIFF\<close> are detected as \<open>.png\<close> (the two
  lemmas above). But a payload of 116 bytes that begins with \<open>RIFF\<close> and has no
  \<open>WEBP\<close> marker matches none of the known signatures and is detected as \<open>.webp\<close>,
  not as \<open>.png\<close>.
\<close>

theorem detect_image_format_unmatched_riff:
  "length riff_wave_long = 116
   \<and> \<not> matches_known_signature riff_wave_long
   \<and> detect_image_format riff_wave_long = ustr ''.webp''
   \<and> detect_image_format riff_wave_long \<noteq> ustr ''.png''"
  by (simp add: riff_wave_long_def riff_wave_def matches_known_signature_def
      detect_image_format_def supported_image_extensions_def startswith_def bstr_def ustr_def)

text \<open>
  C7. A payload that begins with \<open>RIFF\<close> is given the extension \<open>.webp\<close> by the
  signature table, whether or not the \<open>WEBP\<close> marker follows: the marker test after
  the loop is never reached for such data. Here the payload is the header of a WAVE
  file, which has no \<open>WEBP\<close> marker in its first 12 bytes.
\<close>

theorem detect_image_format_riff_without_marker:
  "startswith riff_wave (bstr ''RIFF'')
   \<and> \<not> contains (take 12 riff_wave) (bstr ''WEBP'')
   \<and> detect_image_format riff_wave = ustr ''.webp''
   \<and> detect_image_format riff_wave \<noteq> ustr ''.png''"
  by (simp add: riff_wave_def detect_image_format_def supported_image_extensions_def
      startswith_def bstr_def ustr_def)

section \<open>Properties of image extraction\<close>

lemma first_decoded_append:
  "first_decoded L (xs @ ys) =
     (case first_decoded L xs of Some r \<Rightarrow> Some r | None \<Rightarrow> first_decoded L ys)"
  by (induction xs) (auto split: option.splits)

lemma from_attributes_first_decoded:
  "from_attributes L img attrs =
     first_decoded L (concat (map (\<lambda>attr. case get img attr of
                             None \<Rightarrow> []
                           | Some v \<Rightarrow> if v = [] then [] else [v]) attrs))"
  by (induction attrs) (auto split: option.splits)

lemma from_children_first_decoded:
  "from_children L cs =
     first_decoded L (concat (map (\<lambda>child. case etext child of
                              None \<Rightarrow> []
                            | Some tx \<Rightarrow>
                                if tx \<noteq> [] \<and> keyword_tag L (tag child) then [tx] else []) cs))"
  by (induction cs) (auto split: option.splits)

lemma from_descendants_first_decoded:
  "from_descendants L ds = first_decoded L (descendant_candidates ds)"
  unfolding descendant_candidates_def
  by (induction ds) (auto split: option.splits)

lemma extract_image_first_decoded:
  "extract_image_data_enhanced L img = first_decoded L (candidates L img)"
  by (simp add: extract_image_data_enhanced_def candidates_def first_decoded_append
      from_attributes_first_decoded from_children_first_decoded from_descendants_first_decoded
      attribute_candidates_def child_candidates_def split: option.splits)

lemma first_decoded_None:
  "(\<forall>c \<in> set cs. decoded_image L c = None) \<Longrightarrow> first_decoded L cs = None"
  by (induction cs) auto

lemma first_decoded_Some:
  "first_decoded L cs = Some r \<Longrightarrow> \<exists>c \<in> set cs. decoded_image L c = Some r"
  by (induction cs) (auto split: option.splits)

lemma decoded_image_short:
  "(\<forall>data. b64decode L c = Some data \<longrightarrow> length data < 100) \<Longrightarrow> decoded_image L c = None"
  by (auto simp: decoded_image_def split: option.splits)

lemma decoded_image_Some:
  "decoded_image L c = Some (data, ext)
   \<Longrightarrow> b64decode L c = Some data \<and> 100 < length data \<and> ext = detect_image_format data"
  by (auto simp: decoded_image_def split: option.splits if_splits)

lemma descendant_candidates_iff:
  "c \<in> set (descendant_candidates ds) \<longleftrightarrow>
     (\<exists>d \<in> set ds. \<exists>tx. etext d = Some tx \<and> tx \<noteq> [] \<and> c = strip tx
        \<and> 100 < length c \<and> looks_like_base64 c)"
proof (induction ds)
  case Nil
  then show ?case by (simp add: descendant_candidates_def)
next
  case (Cons a ds)
  have step: "descendant_candidates (a # ds) =
      (case etext a of None \<Rightarrow> []
       | Some tx \<Rightarrow> if tx \<noteq> [] \<and> length (strip tx) > 100 \<and> looks_like_base64 (strip tx)
                    then [strip tx] else []) @ descendant_candidates ds"
    by (simp add: descendant_candidates_def)
  show ?case
  proof (cases "etext a")
    case None
    with Cons step show ?thesis by auto
  next
    case (Some tx)
    with Cons step show ?thesis by auto
  qed
qed

lemma looks_like_base64_prefix:
  "looks_like_base64 c \<Longrightarrow> \<forall>x \<in> set (take 100 c). x \<in> set valid_chars"
  by (auto simp: looks_like_base64_def list_all_iff split: if_splits)

text \<open>
  C5. If every candidate payload of an image element that decodes at all decodes to
  fewer than 100 bytes, extraction returns \<open>None\<close>; what the decoded bytes begin with
  plays no part.
\<close>

theorem small_payloads_rejected:
  assumes "\<forall>c \<in> set (candidates L img).
             \<forall>data. b64decode L c = Some data \<longrightarrow> length data < 100"
  shows "extract_image_data_enhanced L img = None"
  unfolding extract_image_first_decoded
  by (rule first_decoded_None) (use assms decoded_image_short in blast)

lemma tiny_image_candidates: "candidates ascii_lib tiny_image = [ustr ''/9j/'']"
  by (simp add: candidates_def attribute_candidates_def child_candidates_def
      descendant_candidates_def proper_descendants_def tiny_image_def image_attributes_def
      get_def ustr_def)

lemma tiny_image_decodes: "b64decode ascii_lib (ustr ''/9j/'') = Some [0xFF, 0xD8, 0xFF]"
  by (simp add: ascii_lib_def b64decode_ascii_def b64_value_def ustr_def)

theorem small_payloads_rejected_witness:
  "candidates ascii_lib tiny_image = [ustr ''/9j/'']
   \<and> b64decode ascii_lib (ustr ''/9j/'') = Some [0xFF, 0xD8, 0xFF]
   \<and> detect_image_format [0xFF, 0xD8, 0xFF] = ustr ''.jpg''
   \<and> extract_image_data_enhanced ascii_lib tiny_image = None"
  using small_payloads_rejected[of ascii_lib tiny_image]
  by (simp add: tiny_image_candidates tiny_image_decodes detect_image_format_def
      supported_image_extensions_def startswith_def)

subsection \<open>The line-wrapped payload\<close>

lemma strip_wrapped: "strip wrapped_payload = wrapped_payload"
  by code_simp

lemma looks_wrapped: "looks_like_base64 wrapped_payload"
  by code_simp

lemma zeros_detected_png: "detect_image_format (replicate 111 0) = ustr ''.png''"
  by code_simp

lemma wrapped_decoded: "b64decode ascii_lib wrapped_payload = Some (replicate 111 0)"
  by code_simp

lemma len_wrapped: "length wrapped_payload = 149"
  by (simp add: wrapped_payload_def)

lemma wrapped_mem: "10 \<in> set wrapped_payload \<and> 10 \<notin> set valid_chars"
  by code_simp

lemma wrapped_blob_iter: "iter_pos wrapped_blob = [([], wrapped_blob)]"
  by (simp add: wrapped_blob_def)

lemma wrapped_blob_text: "etext wrapped_blob = Some wrapped_payload"
  by (simp add: wrapped_blob_def)

lemma wrapped_descendants: "proper_descendants wrapped_image =
   [Element (TagStr (ustr ''{one}Holder'')) [] None None [wrapped_blob], wrapped_blob]"
  by (simp add: proper_descendants_def wrapped_image_def wrapped_blob_iter enumerate_eq_zip)

lemma wrapped_nonempty: "wrapped_payload \<noteq> []"
  by (simp add: wrapped_payload_def)

lemma wrapped_from_descendants: "from_descendants ascii_lib (proper_descendants wrapped_image)
       = Some (replicate 111 0, ustr ''.png'')"
  by (simp add: wrapped_descendants wrapped_blob_text strip_wrapped looks_wrapped decoded_image_def wrapped_decoded
      zeros_detected_png len_wrapped wrapped_nonempty)

lemma wrapped_from_attributes: "from_attributes ascii_lib wrapped_image image_attributes = None"
  by (simp add: wrapped_image_def image_attributes_def get_def)

lemma wrapped_from_children: "from_children ascii_lib (children wrapped_image) = None"
  by (simp add: wrapped_image_def)

lemma wrapped_extracted: "extract_image_data_enhanced ascii_lib wrapped_image
       = Some (replicate 111 0, ustr ''.png'')"
  by (simp add: extract_image_data_enhanced_def wrapped_from_descendants wrapped_from_attributes wrapped_from_children)

lemma wrapped_candidates: "descendant_candidates (proper_descendants wrapped_image) = [wrapped_payload]"
  by (simp add: descendant_candidates_def wrapped_descendants wrapped_blob_text strip_wrapped looks_wrapped
      len_wrapped wrapped_nonempty)

text \<open>
  C8, as stated, fails: the payload below has a line feed after its first 100
  characters, a character outside the base64 alphabet, and the third stage accepts it,
  because \<open>_looks_like_base64\<close> looks at the first 100 characters only.
\<close>

theorem stage3_accepts_line_feed:
  "etext wrapped_blob = Some wrapped_payload
   \<and> 10 \<in> set wrapped_payload \<and> 10 \<notin> set valid_chars
   \<and> from_descendants ascii_lib (proper_descendants wrapped_image)
       = Some (replicate 111 0, ustr ''.png'')
   \<and> extract_image_data_enhanced ascii_lib wrapped_image
       = Some (replicate 111 0, ustr ''.png'')"
  by (simp add: wrapped_blob_text wrapped_mem wrapped_from_descendants wrapped_extracted)

text \<open>
  C8, amended. The third stage hands to the decoder exactly the stripped texts of the
  descendants that are longer than 100 characters and whose first 100 characters all
  belong to the base64 alphabet, and it returns the first of them that decodes to more
  than 100 bytes. So a text is accepted by this stage only if, stripped, it is longer
  than 100 characters and has no character outside the alphabet among its first 100.
\<close>

theorem stage3_checks_first_100:
  "from_descendants L ds = first_decoded L (descendant_candidates ds)
   \<and> (\<forall>c \<in> set (descendant_candidates ds).
         (\<exists>d \<in> set ds. \<exists>tx. etext d = Some tx \<and> c = strip tx)
         \<and> 100 < length c \<and> (\<forall>x \<in> set (take 100 c). x \<in> set valid_chars))
   \<and> (\<forall>data ext. from_descendants L ds = Some (data, ext) \<longrightarrow>
         (\<exists>d \<in> set ds. \<exists>tx. etext d = Some tx \<and> 100 < length (strip tx)
            \<and> (\<forall>x \<in> set (take 100 (strip tx)). x \<in> set valid_chars)
            \<and> b64decode L (strip tx) = Some data \<and> 100 < length data))"
proof -
  have cands: "\<forall>c \<in> set (descendant_candidates ds).
         (\<exists>d \<in> set ds. \<exists>tx. etext d = Some tx \<and> c = strip tx)
         \<and> 100 < length c \<and> (\<forall>x \<in> set (take 100 c). x \<in> set valid_chars)"
  proof
    fix c assume "c \<in> set (descendant_candidates ds)"
    then obtain d tx where "d \<in> set ds" "etext d = Some tx" "c = strip tx"
      "100 < length c" "looks_like_base64 c"
      unfolding descendant_candidates_iff by blast
    then show "(\<exists>d \<in> set ds. \<exists>tx. etext d = Some tx \<and> c = strip tx)
         \<and> 100 < length c \<and> (\<forall>x \<in> set (take 100 c). x \<in> set valid_chars)"
      using looks_like_base64_prefix[of c] by blast
  qed
  have acc: "\<exists>d \<in> set ds. \<exists>tx. etext d = Some tx \<and> 100 < length (strip tx)
            \<and> (\<forall>x \<in> set (take 100 (strip tx)). x \<in> set valid_chars)
            \<and> b64decode L (strip tx) = Some data \<and> 100 < length data"
    if "from_descendants L ds = Some (data, ext)" for data ext
  proof -
    from that obtain c where cand: "c \<in> set (descendant_candidates ds)"
      and dec: "decoded_image L c = Some (data, ext)"
      unfolding from_descendants_first_decoded by (blast dest: first_decoded_Some)
    from dec have "b64decode L c = Some data" "100 < length data"
      by (auto dest: decoded_image_Some)
    moreover from cand cands obtain d tx where "d \<in> set ds" "etext d = Some tx"
      "c = strip tx" "100 < length c" "\<forall>x \<in> set (take 100 c). x \<in> set valid_chars"
      by blast
    ultimately show ?thesis by auto
  qed
  from cands acc from_descendants_first_decoded[of L ds] show ?thesis by blast
qed

theorem stage3_checks_first_100_witness:
  "descendant_candidates (proper_descendants wrapped_image) = [wrapped_payload]
   \<and> from_descendants ascii_lib (proper_descendants wrapped_image)
       = Some (replicate 111 0, ustr ''.png'')
   \<and> 100 < length wrapped_payload
   \<and> list_all (\<lambda>x. x \<in> set valid_chars) (take 100 wrapped_payload)"
proof -
  from stage3_checks_first_100[of ascii_lib "proper_descendants wrapped_image"]
  have "\<forall>c \<in> set (descendant_candidates (proper_descendants wrapped_image)).
          100 < length c \<and> (\<forall>x \<in> set (take 100 c). x \<in> set valid_chars)"
    by blast
  then have "100 < length wrapped_payload
      \<and> (\<forall>x \<in> set (take 100 wrapped_payload). x \<in> set valid_chars)"
    by (simp add: wrapped_candidates)
  with wrapped_candidates wrapped_from_descendants show ?thesis by (simp add: list_all_iff)
qed

section \<open>Properties of table extraction\<close>

lemma table_rows_invariant:
  assumes "seen = set (map row_signature rows)" and "distinct (map row_signature rows)"
  shows "snd (table_rows L es (rows, seen)) = set (map row_signature (fst (table_rows L es (rows, seen))))
         \<and> distinct (map row_signature (fst (table_rows L es (rows, seen))))"
  using assms
proof (induction es arbitrary: rows seen)
  case Nil
  then show ?case by simp
next
  case (Cons e es)
  let ?rd = "row_cells L (findall_local e (ustr ''Cell'')) []"
  show ?case
  proof (cases "?rd \<noteq> [] \<and> list_ex (\<lambda>cell. strip cell \<noteq> []) ?rd \<and> row_signature ?rd \<notin> seen")
    case True
    then have step: "table_rows L (e # es) (rows, seen)
        = table_rows L es (rows @ [?rd], insert (row_signature ?rd) seen)"
      by (simp add: Let_def)
    have "insert (row_signature ?rd) seen = set (map row_signature (rows @ [?rd]))"
      using Cons.prems(1) by simp
    moreover have "distinct (map row_signature (rows @ [?rd]))"
      using Cons.prems True by simp
    ultimately show ?thesis
      unfolding step by (rule Cons.IH)
  next
    case False
    then have step: "table_rows L (e # es) (rows, seen) = table_rows L es (rows, seen)"
      by (auto simp: Let_def)
    show ?thesis unfolding step using Cons.prems by (rule Cons.IH)
  qed
qed

lemma extract_distinct: "distinct (map row_signature (extract_table_data_enhanced L t))"
  unfolding extract_table_data_enhanced_def
  using table_rows_invariant[of "{}" "[]" L] by simp

lemma text_cell_lookup: "findall_local (text_cell s) (ustr ''T'') = [Element (TagStr (ustr ''{one}T'')) [] (Some s) None []]"
  by (simp add: findall_local_def findall_local_pos_def text_cell_def enumerate_eq_zip tag_matches_def
     endswith_def split_last_def rbrace_def ustr_def)

lemma strip_letter: "65 \<le> c \<Longrightarrow> c \<le> 90 \<Longrightarrow> strip [c] = [c]"
  by (simp add: strip_def isspace_def)

lemma clean_letter: "65 \<le> c \<Longrightarrow> c \<le> 90 \<Longrightarrow> clean_text_content L [c] = [c]"
  by (simp add: clean_text_content_def html_unescape_def replace_char_def strip_letter)

lemma cell_text_letter:
  "65 \<le> c \<Longrightarrow> c \<le> 90 \<Longrightarrow> extract_cell_text_enhanced L (text_cell [c]) = [c]"
  by (simp add: extract_cell_text_enhanced_def text_cell_lookup clean_letter add_part_def strip_letter isspace_def)

lemma span_text_cell: "get_cell_span L (text_cell s) t = 1"
  by (simp add: get_cell_span_def text_cell_def get_def)

lemma cells_of_row:
  "findall_local (Element (TagStr (ustr ''{one}Row'')) [] None None [text_cell a, text_cell b])
     (ustr ''Cell'') = [text_cell a, text_cell b]"
  by (simp add: findall_local_def findall_local_pos_def text_cell_def enumerate_eq_zip tag_matches_def
     endswith_def split_last_def rbrace_def ustr_def)

lemma row_of_letters:
  assumes "65 \<le> a" "a \<le> 90" "65 \<le> b" "b \<le> 90"
  shows "row_cells L (findall_local
           (Element (TagStr (ustr ''{one}Row'')) [] None None [text_cell [a], text_cell [b]])
           (ustr ''Cell'')) [] = [[a], [b]]"
  using assms by (simp add: cells_of_row cell_text_letter span_text_cell)

lemma rows_of_abcd:
  "findall_local abcd_table (ustr ''Row'') =
     [Element (TagStr (ustr ''{one}Row'')) [] None None [text_cell (ustr ''A''), text_cell (ustr ''B'')],
      Element (TagStr (ustr ''{one}Row'')) [] None None [text_cell (ustr ''A''), text_cell (ustr ''B'')],
      Element (TagStr (ustr ''{one}Row'')) [] None None [text_cell (ustr ''C''), text_cell (ustr ''D'')]]"
  by (simp add: findall_local_def findall_local_pos_def abcd_table_def text_cell_def enumerate_eq_zip
     tag_matches_def endswith_def split_last_def rbrace_def ustr_def)

lemma abcd_extract:
  "extract_table_data_enhanced L abcd_table =
     [[ustr ''A'', ustr ''B''], [ustr ''C'', ustr ''D'']]"
proof -
  have ab: "row_cells L (findall_local
           (Element (TagStr (ustr ''{one}Row'')) [] None None [text_cell (ustr ''A''), text_cell (ustr ''B'')])
           (ustr ''Cell'')) [] = [[65], [66]]"
    using row_of_letters[of 65 66 L] by (simp add: ustr_def)
  have cd: "row_cells L (findall_local
           (Element (TagStr (ustr ''{one}Row'')) [] None None [text_cell (ustr ''C''), text_cell (ustr ''D'')])
           (ustr ''Cell'')) [] = [[67], [68]]"
    using row_of_letters[of 67 68 L] by (simp add: ustr_def)
  have "fst (table_rows L (findall_local abcd_table (ustr ''Row'')) ([], {})) = [[[65], [66]], [[67], [68]]]"
    unfolding rows_of_abcd
    by (simp add: ab cd row_signature_def strip_letter Let_def) 
  then show ?thesis
    by (simp add: extract_table_data_enhanced_def ustr_def)
qed

lemma row_signature_take: "row_signature row_data = join (ustr ''|'') (take 3 row_data)"
  by (simp add: row_signature_def)

text \<open>
  C1. No two rows of the extracted grid have the same signature, the signature of a
  row being its first three cells at most, joined by \<open>|\<close>; and the table with the
  rows A B, A B, C D is extracted as the rows A B and C D.
\<close>

theorem extracted_rows_distinct_signatures:
  "distinct (map row_signature (extract_table_data_enhanced L table_elem))
   \<and> row_signature row_data = join (ustr ''|'') (take 3 row_data)
   \<and> extract_table_data_enhanced L abcd_table =
       [[ustr ''A'', ustr ''B''], [ustr ''C'', ustr ''D'']]"
  using extract_distinct[of L table_elem] row_signature_take[of row_data] abcd_extract[of L]
  by blast

theorem extracted_rows_distinct_signatures_witness:
  "distinct (map row_signature [[ustr ''A'', ustr ''B''], [ustr ''C'', ustr ''D'']])
   \<and> row_signature [ustr ''A'', ustr ''B''] = ustr ''A|B''
   \<and> extract_table_data_enhanced ascii_lib abcd_table =
       [[ustr ''A'', ustr ''B''], [ustr ''C'', ustr ''D'']]"
proof -
  from extracted_rows_distinct_signatures[of ascii_lib abcd_table "[ustr ''A'', ustr ''B'']"]
  have d: "distinct (map row_signature (extract_table_data_enhanced ascii_lib abcd_table))"
    and s: "row_signature [ustr ''A'', ustr ''B''] = join (ustr ''|'') (take 3 [ustr ''A'', ustr ''B''])"
    and e: "extract_table_data_enhanced ascii_lib abcd_table =
       [[ustr ''A'', ustr ''B''], [ustr ''C'', ustr ''D'']]"
    by blast+
  from s have "row_signature [ustr ''A'', ustr ''B''] = ustr ''A|B''"
    by (simp add: ustr_def)
  with d e show ?thesis by simp
qed




































section \<open>Properties of the walk\<close>

lemma inside_loop_without_getparent:
  "inside_loop False (current # parents) targets = tag_is_target current targets"
  by simp

lemma inside_loop_with_getparent:
  "inside_loop True chain targets \<longleftrightarrow> (\<exists>e \<in> set chain. tag_is_target e targets)"
  by (induction chain) auto

lemma walk_t: "process_element anc pos cell_t =
   (if is_inside_element (cell_t # anc) [ustr ''Table''] then [] else [(TextType, pos, cell_t)])"
  by (simp add: cell_t_def ustr_def rbrace_def split_last_def)

lemma not_target_t: "\<not> tag_is_target cell_t [ustr ''Table'']"
  by (simp add: tag_is_target_def cell_t_def ustr_def endswith_def rbrace_def)

lemma not_target_oe: "\<not> tag_is_target cell_oe [ustr ''Table'']"
  by (simp add: tag_is_target_def cell_oe_def ustr_def endswith_def rbrace_def)

lemma inside_t: "\<not> is_inside_element (cell_t # anc) [ustr ''Table'']"
  by (simp add: is_inside_element_def has_getparent_def not_target_t)

lemma inside_oe: "\<not> is_inside_element (cell_oe # anc) [ustr ''Table'']"
  by (simp add: is_inside_element_def has_getparent_def not_target_oe)


lemma walk_oe: "process_element anc pos cell_oe =
   [(TextType, pos, cell_oe), (TextType, pos @ [0], cell_t)]"
proof -
  have "process_element anc pos cell_oe =
     (if is_inside_element (cell_oe # anc) [ustr ''Table''] then [] else [(TextType, pos, cell_oe)])
     @ process_element (cell_oe # anc) (pos @ [0]) cell_t"
    unfolding cell_oe_def
    by (simp add: ustr_def rbrace_def split_last_def enumerate_eq_zip Let_def)
  then show ?thesis by (simp add: inside_oe inside_t walk_t)
qed


lemma walk_table: "process_element anc pos one_cell_table =
   [(TableType, pos, one_cell_table), (TextType, pos @ [0, 0, 0], cell_oe),
    (TextType, pos @ [0, 0, 0, 0], cell_t)]"
  unfolding one_cell_table_def
  by (simp add: walk_oe Let_def enumerate_eq_zip ustr_def rbrace_def split_last_def)


lemma children_page: "children table_page = [one_cell_table]"
  by (simp add: table_page_def)

lemma walk_page: "process_content_in_original_order table_page =
     [(TableType, [0], one_cell_table), (TextType, [0, 0, 0, 0], cell_oe),
      (TextType, [0, 0, 0, 0, 0], cell_t)]"
  by (simp add: process_content_in_original_order_def children_page walk_table enumerate_eq_zip)

lemma nodes_page: "node_at table_page [0] = Some one_cell_table
   \<and> node_at table_page [0, 0, 0, 0] = Some cell_oe
   \<and> node_at table_page [0, 0, 0, 0, 0] = Some cell_t"
  by (simp add: table_page_def one_cell_table_def cell_oe_def)

lemma table_name: "has_local_name one_cell_table (ustr ''Table'')"
  by (simp add: one_cell_table_def has_local_name_def split_last_def rbrace_def ustr_def)

text \<open>
  C2. On a page with a table whose cell holds an \<open>OE\<close> with a \<open>T\<close>, the walk calls the
  processor for the table and then, as text, for the \<open>OE\<close> and for the \<open>T\<close>, although
  both lie below the \<open>Table\<close> element at position \<open>[0]\<close>: the ancestor test sees the
  element alone.
\<close>

theorem walk_emits_text_inside_table:
  "process_content_in_original_order table_page =
     [(TableType, [0], one_cell_table), (TextType, [0, 0, 0, 0], cell_oe),
      (TextType, [0, 0, 0, 0, 0], cell_t)]
   \<and> node_at table_page [0] = Some one_cell_table
   \<and> has_local_name one_cell_table (ustr ''Table'')
   \<and> node_at table_page [0, 0, 0, 0] = Some cell_oe
   \<and> node_at table_page [0, 0, 0, 0, 0] = Some cell_t"
  using walk_page nodes_page table_name by blast

section \<open>Properties of page conversion\<close>

text \<open>
  C3. When the markup does not parse, both conversions return \<open>False\<close> and leave the
  files as they were; in particular nothing is created at the output path.
\<close>

theorem parse_failure_no_output:
  assumes "fromstring B xml = None"
  shows "parse_page_to_docx B xml page_name out_path include_images fs = (False, fs)
       \<and> parse_page_to_pdf B xml page_name out_path include_images fs = (False, fs)"
  using assms by (simp add: parse_page_to_docx_def parse_page_to_pdf_def)

lemma log_backend_rejects_empty: "fromstring log_backend [] = None"
  by (simp add: log_backend_def)

theorem parse_failure_no_output_witness:
  "fromstring log_backend [] = None
   \<and> parse_page_to_docx log_backend [] (ustr ''t'') (ustr ''p.docx'') True Map.empty
       = (False, Map.empty)
   \<and> parse_page_to_pdf log_backend [] (ustr ''t'') (ustr ''p.pdf'') True Map.empty
       = (False, Map.empty)"
  using parse_failure_no_output[OF log_backend_rejects_empty, of "ustr ''t''" "ustr ''p.docx''" True Map.empty]
    parse_failure_no_output[OF log_backend_rejects_empty, of "ustr ''t''" "ustr ''p.pdf''" True Map.empty] log_backend_rejects_empty
  by blast

section \<open>Properties of PDF table segmentation\<close>

lemma parse_rows_nonempty: "r \<in> set (parse_rows L es) \<Longrightarrow> r \<noteq> []"
  by (induction es) (auto simp: Let_def split: if_splits)

lemma unique_rows_subset: "set (unique_rows rows seen) \<subseteq> set rows"
  by (induction rows arbitrary: seen) (auto simp: Let_def)

lemma unique_rows_empty_seen: "rows \<noteq> [] \<Longrightarrow> unique_rows rows {} \<noteq> []"
  by (cases rows) (auto simp: Let_def)

lemma clean_rows_fst:
  "fst (clean_rows L rows (acc, k)) = acc @ map (map (clean_cell_text_for_pdf L)) rows"
  by (induction rows arbitrary: acc k) (auto simp: Let_def)

lemma clean_rows_snd_ge: "k \<le> snd (clean_rows L rows (acc, k))"
proof (induction rows arbitrary: acc k)
  case Nil
  then show ?case by simp
next
  case (Cons r rows)
  have "max k (length r) \<le> snd (clean_rows L rows (acc @ [map (clean_cell_text_for_pdf L) r], max k (length r)))"
    by (rule Cons)
  then show ?case by (simp add: Let_def)
qed

lemma clean_rows_snd_row:
  "r \<in> set rows \<Longrightarrow> length r \<le> snd (clean_rows L rows (acc, k))"
proof (induction rows arbitrary: acc k)
  case Nil
  then show ?case by simp
next
  case (Cons a rows)
  show ?case
  proof (cases "r = a")
    case True
    have "max k (length a) \<le> snd (clean_rows L rows (acc @ [map (clean_cell_text_for_pdf L) a], max k (length a)))"
      by (rule clean_rows_snd_ge)
    with True show ?thesis by (simp add: Let_def)
  next
    case False
    with Cons.prems have "r \<in> set rows" by simp
    then show ?thesis using Cons.IH by (simp add: Let_def)
  qed
qed

lemma range_one: "1 \<le> m \<Longrightarrow> py_range 0 m m = Inr [0]"
proof -
  assume m: "1 \<le> m"
  then have "(m + m - 1) div m = 1" by (intro div_nat_eqI) auto
  with m show ?thesis by (simp add: py_range_def)
qed

lemma range_eight: "9 \<le> m \<Longrightarrow> m \<le> 12 \<Longrightarrow> py_range 0 m 8 = Inr [0, 8]"
proof -
  assume m: "9 \<le> m" "m \<le> 12"
  then have "(m + 8 - 1) div 8 = 2" by (intro div_nat_eqI) auto
  then have "[0..<(m - 0 + 8 - 1) div 8] = [0, 1]" by (simp add: upt_rec)
  then show ?thesis by (simp add: py_range_def)
qed

lemma range_six: "py_range 0 m 6 = Inr (map (\<lambda>i. 6 * i) [0..<(m + 5) div 6])"
  by (simp add: py_range_def ac_simps)

lemma starts_banding:
  assumes "1 \<le> m"
  shows "py_range 0 m (max_cols_per_segment m) = Inr (map fst (banding_rule m))
       \<and> (\<forall>(s, e) \<in> set (banding_rule m). e = min (s + max_cols_per_segment m) m)"
proof (cases "m \<le> 8")
  case True
  with assms show ?thesis
    by (simp add: max_cols_per_segment_def banding_rule_def range_one)
next
  case False
  show ?thesis
  proof (cases "m \<le> 12")
    case True
    with False show ?thesis
      by (simp add: max_cols_per_segment_def banding_rule_def range_eight)
  next
    case False
    then show ?thesis
      by (auto simp: max_cols_per_segment_def banding_rule_def range_six comp_def)
  qed
qed

lemma banding_15: "banding_rule 15 = [(0, 6), (6, 12), (12, 15)]"
  by (simp add: banding_rule_def upt_rec)

lemma slices_prefix:
  assumes "0 < per"
  shows "concat (map (\<lambda>i. slice (per * i) (min (per * i + per) m) row) [0..<n])
           = take (min (per * n) m) row"
proof (induction n)
  case 0
  then show ?case by simp
next
  case (Suc n)
  have "take (min (per * n) m) row @ slice (per * n) (min (per * n + per) m) row
      = take (min (per * Suc n) m) row"
  proof (cases "per * n \<le> m")
    case True
    then have "min (per * n) m = per * n" by simp
    moreover have "slice (per * n) (min (per * n + per) m) row
        = take (min (per * n + per) m - per * n) (drop (per * n) row)"
      by (simp add: slice_def)
    moreover have "per * n + (min (per * n + per) m - per * n) = min (per * Suc n) m"
      using True by (simp add: min_def)
    ultimately show ?thesis
      by (metis take_add)
  next
    case False
    then have "min (per * n) m = m" "min (per * n + per) m = m" "min (per * Suc n) m = m"
      by simp_all
    then show ?thesis using False by (simp add: slice_def)
  qed
  with Suc show ?case by simp
qed


lemma banding_covers:
  assumes "length row = m" and "1 \<le> m"
  shows "concat (map (\<lambda>(s, e). slice s e row) (banding_rule m)) = row"
proof (cases "m \<le> 8")
  case True
  with assms show ?thesis by (simp add: banding_rule_def slice_def)
next
  case False
  show ?thesis
  proof (cases "m \<le> 12")
    case True
    with False assms show ?thesis
      by (simp add: banding_rule_def slice_def)
  next
    case False
    have "6 * ((m + 5) div 6) \<ge> m" by presburger
    then have "take (min (6 * ((m + 5) div 6)) m) row = row"
      using assms by simp
    moreover have "concat (map (\<lambda>(s, e). slice s e row)
          (map (\<lambda>i. (6 * i, min (6 * i + 6) m)) [0..<(m + 5) div 6]))
        = concat (map (\<lambda>i. slice (6 * i) (min (6 * i + 6) m) row) [0..<(m + 5) div 6])"
      by (simp add: comp_def)
    ultimately show ?thesis
      using False slices_prefix[of 6 m row "(m + 5) div 6"]
      by (simp add: banding_rule_def)
  qed
qed

text \<open>
  C9. For the cleaned and padded grid of a table, with \<open>m\<close> columns: the segments
  that \<open>_tables_pdf_enhanced\<close> lays out are those of the banding rule, each with the
  columns from its first to its last of every row (of the first 120 rows), in order
  from the left; glued together they give back each row; and 15 columns give the
  three segments of columns 0 to 5, 6 to 11 and 12 to 14, of widths 6, 6 and 3.
\<close>

theorem pdf_column_segments:
  assumes grid: "pdf_grid L table_elem = (rows, m)" and ne: "rows \<noteq> []"
  shows "1 \<le> m
     \<and> table_segments L table_elem =
         Inr (map (\<lambda>(s, e). (s, e, map (slice s e) (take 120 rows))) (banding_rule m))
     \<and> (\<forall>row \<in> set rows.
           length row = m \<and> concat (map (\<lambda>(s, e). slice s e row) (banding_rule m)) = row)
     \<and> banding_rule 15 = [(0, 6), (6, 12), (12, 15)]"
proof -
  let ?P = "parse_table_rows_clean L table_elem"
  let ?U = "unique_rows ?P {}"
  let ?C = "map (map (clean_cell_text_for_pdf L)) ?U"
  have fstc: "fst (clean_rows L ?U ([], 0)) = ?C"
    by (simp add: clean_rows_fst)
  from grid have m: "snd (clean_rows L ?U ([], 0)) = m"
    and rows: "rows = pad_rows ?C m"
    using fstc by (auto simp: pdf_grid_def split: prod.splits)
  from rows ne have U: "?U \<noteq> []" by (auto simp: pad_rows_def)
  then have P: "?P \<noteq> []" by auto
  have len: "length r \<le> m" if "r \<in> set ?U" for r
    using clean_rows_snd_row[OF that, of L "[]" 0] m by simp
  from U obtain r where r: "r \<in> set ?U" by (cases ?U) auto
  with unique_rows_subset[of ?P "{}"] have "r \<in> set (parse_rows L (findall_local table_elem (ustr ''Row'')))"
    by (auto simp: parse_table_rows_clean_def)
  then have "r \<noteq> []" by (rule parse_rows_nonempty)
  with len[OF r] have m1: "1 \<le> m" by (cases r) auto
  have rowlen: "length row = m" if "row \<in> set rows" for row
    using that rows len by (auto simp: pad_rows_def)
  note sb = starts_banding[OF m1]
  have t120: "(if length rows > 120 then take 120 rows else rows) = take 120 rows"
    by simp
  have data_ne: "map (slice s e) (take 120 rows) \<noteq> []" for s e
    using ne by simp
  have maps: "map (\<lambda>start_col.
        (let end_col = min (start_col + max_cols_per_segment m) m
         in (start_col, end_col, map (slice start_col end_col) (take 120 rows))))
        (map fst (banding_rule m))
      = map (\<lambda>(s, e). (s, e, map (slice s e) (take 120 rows))) (banding_rule m)"
    using sb by (auto simp: Let_def)
  have filt: "filter (\<lambda>(start_col, end_col, segment_data). segment_data \<noteq> [])
        (map (\<lambda>(s, e). (s, e, map (slice s e) (take 120 rows))) (banding_rule m))
      = map (\<lambda>(s, e). (s, e, map (slice s e) (take 120 rows))) (banding_rule m)"
    using data_ne by (auto simp: filter_id_conv)
  have seg: "table_segments L table_elem =
         Inr (map (\<lambda>(s, e). (s, e, map (slice s e) (take 120 rows))) (banding_rule m))"
    unfolding table_segments_def
    using P U by (simp add: grid t120 conjunct1[OF sb] maps filt del: take_all_iff map_map)
  from m1 seg rowlen banding_covers[OF _ m1] banding_15 show ?thesis by blast
qed

lemma clean_cell_letter:
  "65 \<le> c \<Longrightarrow> c \<le> 90 \<Longrightarrow> extract_clean_cell_text L (text_cell [c]) = [c]"
  by (simp add: extract_clean_cell_text_def text_cell_lookup add_part_def strip_letter html_unescape_def isspace_def)

lemma pdf_letter:
  "65 \<le> c \<Longrightarrow> c \<le> 90 \<Longrightarrow> clean_cell_text_for_pdf L [c] = [c]"
  by (simp add: clean_cell_text_for_pdf_def html_unescape_def startswith_def linebreak_def ustr_def
      isspace_def strip_letter replace_char_def Let_def)

lemma fifteen_rows:
  "findall_local fifteen_columns (ustr ''Row'') =
     [Element (TagStr (ustr ''{one}Row'')) [] None None
          (map (\<lambda>c. text_cell [c]) (ustr ''ABCDEFGHIJKLMNO''))]"
  by (simp add: findall_local_def findall_local_pos_def fifteen_columns_def text_cell_def enumerate_eq_zip
     tag_matches_def endswith_def split_last_def rbrace_def ustr_def)

lemma fifteen_cells:
  "findall_local (Element (TagStr (ustr ''{one}Row'')) [] None None
          (map (\<lambda>c. text_cell [c]) (ustr ''ABCDEFGHIJKLMNO''))) (ustr ''Cell'')
    = map (\<lambda>c. text_cell [c]) (ustr ''ABCDEFGHIJKLMNO'')"
  by (simp add: findall_local_def findall_local_pos_def text_cell_def enumerate_eq_zip
     tag_matches_def endswith_def split_last_def rbrace_def ustr_def)


lemma letters_range: "\<forall>c \<in> set (ustr ''ABCDEFGHIJKLMNO''). 65 \<le> c \<and> c \<le> 90"
  by (simp add: ustr_def)

lemma fifteen_parsed:
  "parse_table_rows_clean L fifteen_columns = [map (\<lambda>c. [c]) (ustr ''ABCDEFGHIJKLMNO'')]"
proof -
  have cells: "map (extract_clean_cell_text L) (map (\<lambda>c. text_cell [c]) (ustr ''ABCDEFGHIJKLMNO''))
      = map (\<lambda>c. [c]) (ustr ''ABCDEFGHIJKLMNO'')"
    using letters_range by (simp add: clean_cell_letter)
  have nonblank: "list_ex (\<lambda>cell. strip cell \<noteq> []) (map (\<lambda>c. [c]) (ustr ''ABCDEFGHIJKLMNO''))"
    by (simp add: ustr_def strip_letter)
  have ne: "map (\<lambda>c. [c]) (ustr ''ABCDEFGHIJKLMNO'') \<noteq> []"
    by (simp add: ustr_def)
  show ?thesis
    unfolding parse_table_rows_clean_def fifteen_rows
    by (simp only: parse_rows.simps Let_def fifteen_cells cells nonblank ne simp_thms if_True)
qed

lemma fifteen_grid:
  "pdf_grid L fifteen_columns = ([map (\<lambda>c. [c]) (ustr ''ABCDEFGHIJKLMNO'')], 15)"
proof -
  have "map (clean_cell_text_for_pdf L) (map (\<lambda>c. [c]) (ustr ''ABCDEFGHIJKLMNO''))
      = map (\<lambda>c. [c]) (ustr ''ABCDEFGHIJKLMNO'')"
    using letters_range by (simp add: pdf_letter)
  moreover have "length (ustr ''ABCDEFGHIJKLMNO'') = 15" by (simp add: ustr_def)
  ultimately show ?thesis
    by (simp add: pdf_grid_def fifteen_parsed Let_def pad_rows_def)
qed

theorem pdf_column_segments_witness:
  "pdf_grid ascii_lib fifteen_columns = ([map (\<lambda>c. [c]) (ustr ''ABCDEFGHIJKLMNO'')], 15)
   \<and> table_segments ascii_lib fifteen_columns =
       Inr [(0, 6, [map (\<lambda>c. [c]) (ustr ''ABCDEF'')]),
            (6, 12, [map (\<lambda>c. [c]) (ustr ''GHIJKL'')]),
            (12, 15, [map (\<lambda>c. [c]) (ustr ''MNO'')])]"
proof -
  have ne: "[map (\<lambda>c. [c]) (ustr ''ABCDEFGHIJKLMNO'')] \<noteq> []" by simp
  from pdf_column_segments[OF fifteen_grid ne, of ascii_lib]
  have "table_segments ascii_lib fifteen_columns =
      Inr (map (\<lambda>(s, e). (s, e, map (slice s e)
             (take 120 [map (\<lambda>c. [c]) (ustr ''ABCDEFGHIJKLMNO'')]))) (banding_rule 15))"
    by blast
  then show ?thesis
    by (simp add: fifteen_grid banding_15 slice_def ustr_def)
qed

end
